theory Spec2Isabelle
  imports Main "HOL-Library.AList" "HOL-Library.Multiset"
begin

section \<open>Data model of the resharing driver (main.go)\<close>

text \<open>
  The driver of main.go wires four engines of the threshold-signature library (one
  importer, three co-signers), routes their messages and collects the co-signers' results.
  The two entry points \<^verbatim>\<open>runECDSAResharing\<close> and \<^verbatim>\<open>runEDDSAResharing\<close> have the same
  routing, collection and verification code and differ in the curve and in the engine type
  only, so one model serves both; the order \<open>N\<close> of the curve group is a parameter.

  The engines are library code. What the driver sees of them is modelled as data: the
  value \<^verbatim>\<open>Start()\<close> returns, the answer of \<^verbatim>\<open>UpdateFromBytes\<close> (an arbitrary function of
  the engine and of all it has received so far), the messages an engine puts on its
  \<^verbatim>\<open>out\<close> channel and the save data it puts on its \<^verbatim>\<open>end\<close> channel.
\<close>

type_synonym bytes = "nat list"

text \<open>\<^verbatim>\<open>*tss.PartyID\<close>: \<open>Id\<close>, \<open>Moniker\<close> and \<open>Key\<close>, the bytes the library keeps of the
  index.\<close>

record PartyID =
  Id_p :: string
  Moniker :: string
  Key :: bytes

text \<open>The constructor and the accessor of the library (tss-lib, which main.go imports;
  they are not code of main.go). \<^verbatim>\<open>tss.NewPartyID(id, moniker, key)\<close> stores \<^verbatim>\<open>key.Bytes()\<close>,
  the big-endian bytes of the absolute value of \<open>key\<close> (none for 0), and \<^verbatim>\<open>KeyInt()\<close> is
  \<^verbatim>\<open>new(big.Int).SetBytes(pid.Key)\<close>, which reads the bytes as an unsigned number: the
  sign of the index given to the constructor is not kept.\<close>

function nat_bytes :: "nat \<Rightarrow> bytes" where
  "nat_bytes n = (if n = 0 then [] else nat_bytes (n div 256) @ [n mod 256])"
  by pat_completeness auto
termination
  by (relation "measure (\<lambda>n. n)") auto

declare nat_bytes.simps [simp del]

definition Bytes :: "int \<Rightarrow> bytes" where
  "Bytes x = nat_bytes (nat \<bar>x\<bar>)"

definition SetBytes :: "bytes \<Rightarrow> int" where
  "SetBytes bs = int (foldl (\<lambda>acc b. acc * 256 + b) 0 bs)"

definition NewPartyID :: "string \<Rightarrow> string \<Rightarrow> int \<Rightarrow> PartyID" where
  "NewPartyID ident moniker key = \<lparr>Id_p = ident, Moniker = moniker, Key = Bytes key\<rparr>"

definition KeyInt :: "PartyID \<Rightarrow> int" where
  "KeyInt pid = SetBytes (Key pid)"

text \<open>\<^verbatim>\<open>LocalPartySaveData\<close>: the driver's checks read \<^verbatim>\<open>LocalSecrets.Xi\<close> only; the public
  material (\<^verbatim>\<open>Ks\<close>, \<^verbatim>\<open>BigXj\<close>, the pre-parameters) is handed to the library and not read again.
  \<open>Xi\<close> and \<open>ShareID\<close> are of type \<^verbatim>\<open>*big.Int\<close>; \<open>None\<close> is the nil pointer of fresh save data.\<close>

record LocalPartySaveData =
  Xi :: "int option"
  ShareID :: "int option"

text \<open>The channel element types \<^verbatim>\<open>ecresult\<close>/\<^verbatim>\<open>edresult\<close> and \<^verbatim>\<open>msg\<close>.\<close>

record ecresult =
  res_pid :: PartyID
  res_data :: LocalPartySaveData

record MessageRouting =
  To :: "PartyID list"
  IsBroadcast :: bool

text \<open>A \<^verbatim>\<open>tss.Message\<close> is an interface value; the router calls \<^verbatim>\<open>WireBytes()\<close>, which
  returns an error or the payload with its routing header, and \<^verbatim>\<open>Type()\<close>.\<close>

record Message =
  WireBytes :: "string + (bytes \<times> MessageRouting)"
  Type_m :: string

record msg =
  msg_from :: PartyID
  msg_data :: Message

text \<open>The two result channels of a run, and the wrapper \<^verbatim>\<open>makeEcEndCh\<close>/\<^verbatim>\<open>makeEdEndCh\<close>:
  the channel it returns forwards every save data to \<open>endCh\<close>, tagged with \<open>pid\<close>.
  \<^verbatim>\<open>makeOutCh\<close> tags every outgoing message with \<open>pid\<close> in the same way.\<close>

datatype chan_id = signerEndCh | discardEndCh

record end_wrapper =
  end_pid :: PartyID
  end_target :: chan_id

definition makeEcEndCh :: "PartyID \<Rightarrow> chan_id \<Rightarrow> end_wrapper" where
  "makeEcEndCh pid endCh = \<lparr>end_pid = pid, end_target = endCh\<rparr>"

definition makeOutCh :: "PartyID \<Rightarrow> Message \<Rightarrow> msg" where
  "makeOutCh pid m = \<lparr>msg_from = pid, msg_data = m\<rparr>"

text \<open>One call of \<^verbatim>\<open>UpdateFromBytes(payload, from, isBroadcast)\<close> as an engine sees it.\<close>

record delivery =
  d_payload :: bytes
  d_from :: PartyID
  d_isBroadcast :: bool

text \<open>A \<^verbatim>\<open>LocalParty\<close> as the driver built it with \<^verbatim>\<open>NewLocalParty(params, save, out, end)\<close>:
  the party of its parameters, its input save data, the tag of its \<open>out\<close> wrapper, its
  \<open>end\<close> wrapper, and the calls of \<^verbatim>\<open>UpdateFromBytes\<close> it has received, oldest first.\<close>

record LocalParty =
  party :: PartyID
  save :: LocalPartySaveData
  out_pid :: PartyID
  end_ch :: end_wrapper
  received :: "delivery list"

text \<open>The answer \<open>(ok, err)\<close> of an engine to a call: any function of the engine, with
  its history, and of the call.\<close>

type_synonym engine = "LocalParty \<Rightarrow> delivery \<Rightarrow> bool \<times> string option"

definition UpdateFromBytes ::
  "engine \<Rightarrow> LocalParty \<Rightarrow> bytes \<Rightarrow> PartyID \<Rightarrow> bool \<Rightarrow> (bool \<times> string option) \<times> LocalParty" where
  "UpdateFromBytes U p payload from_pid isBroadcast =
     (let d = \<lparr>d_payload = payload, d_from = from_pid, d_isBroadcast = isBroadcast\<rparr>
      in (U p d, p\<lparr>received := received p @ [d]\<rparr>))"

section \<open>The router goroutine\<close>

text \<open>The lines the router writes with \<^verbatim>\<open>log.Printf\<close> and \<^verbatim>\<open>fmt.Printf\<close>, by format string.\<close>

datatype line =
    Error_serializing string string
  | Sending string string
  | Ignoring_self string
  | Not_found string
  | Error_updating string string string
  | Could_not_process string string "string option"
  | Updated string string

record router_state =
  partyMap :: "string \<rightharpoonup> LocalParty"
  lines :: "line list"

definition say :: "line \<Rightarrow> router_state \<Rightarrow> router_state" where
  "say l st = st\<lparr>lines := lines st @ [l]\<rparr>"

text \<open>The body of \<^verbatim>\<open>for _, to := range routing.To\<close>.\<close>

definition route_to ::
  "engine \<Rightarrow> msg \<Rightarrow> bytes \<Rightarrow> MessageRouting \<Rightarrow> PartyID \<Rightarrow> router_state \<Rightarrow> router_state" where
  "route_to U m payload routing to st =
     (if Id_p to = Id_p (msg_from m) then say (Ignoring_self (Id_p (msg_from m))) st
      else case partyMap st (Id_p to) of
        None \<Rightarrow> say (Not_found (Id_p to)) st
      | Some p \<Rightarrow>
          (case UpdateFromBytes U p payload (msg_from m) (IsBroadcast routing) of
             ((ok, err), p') \<Rightarrow>
               let st1 = st\<lparr>partyMap := (partyMap st)(Id_p to \<mapsto> p')\<rparr>;
                   st2 = (case err of None \<Rightarrow> st1
                          | Some e \<Rightarrow> say (Error_updating (Id_p to) (Id_p (msg_from m)) e) st1);
                   st3 = (if \<not> ok
                          then say (Could_not_process (Id_p to) (Id_p (msg_from m)) err) st2
                          else st2)
               in say (Updated (Id_p (msg_from m)) (Id_p to)) st3))"

text \<open>The body of \<^verbatim>\<open>for m := range outCh\<close>, and the loop over what arrives on \<open>outCh\<close>.\<close>

definition route_msg :: "engine \<Rightarrow> msg \<Rightarrow> router_state \<Rightarrow> router_state" where
  "route_msg U m st =
     (case WireBytes (msg_data m) of
        Inl err \<Rightarrow> say (Error_serializing (Id_p (msg_from m)) err) st
      | Inr (payload, routing) \<Rightarrow>
          fold (route_to U m payload routing) (To routing)
            (say (Sending (Id_p (msg_from m)) (Type_m (msg_data m))) st))"

definition router :: "engine \<Rightarrow> msg list \<Rightarrow> router_state \<Rightarrow> router_state" where
  "router U ms st = fold (route_msg U) ms st"

section \<open>Set-up of the parties\<close>

text \<open>The parties and the key of a run. In main.go they are built from literals with
  \<^verbatim>\<open>tss.NewPartyID\<close>, see \<open>main_config\<close> below; the code that uses them is written for any
  value.\<close>

record config =
  importerParty :: PartyID
  signerParties :: "PartyID list"
  plaintextKey :: int

definition main_config :: config where
  "main_config =
     \<lparr>importerParty = (NewPartyID ''importer'' ''Importer'' 0),
      signerParties =
        [(NewPartyID ''signer1'' ''Signer1'' 1),
         (NewPartyID ''signer2'' ''Signer2'' 2),
         (NewPartyID ''signer3'' ''Signer3'' 3)],
      plaintextKey = 255\<rparr>"

text \<open>How a run can end: a \<^verbatim>\<open>panic\<close>, a \<^verbatim>\<open>log.Fatalf\<close> (both end the process), the main
  goroutine waiting for ever on \<open>signerEndCh\<close>, or the last line of the function.\<close>

datatype panic =
    Invalid_PartyID string int
  | Index_out_of_range nat
  | Start_error string
  | Nil_pointer
  | Division_by_zero

datatype fatal =
    Importer_failed string
  | Xi_mismatch int "int option"

datatype outcome = Panicked panic | Fatal fatal | Blocked | Success

definition NewLocalPartySaveData :: LocalPartySaveData where
  "NewLocalPartySaveData = \<lparr>Xi = None, ShareID = None\<rparr>"

definition impSave :: "config \<Rightarrow> LocalPartySaveData" where
  "impSave cfg =
     NewLocalPartySaveData
       \<lparr>Xi := Some (plaintextKey cfg), ShareID := Some (KeyInt (importerParty cfg))\<rparr>"

record setup_state =
  st_partyMap :: "string \<rightharpoonup> LocalParty"
  importerPartyInstance :: LocalParty
  signerPartyInstances :: "LocalParty list"

text \<open>\<^verbatim>\<open>NewLocalParty(params, save, out, end)\<close> of the library: a new engine that has
  received nothing; of the parameters the model keeps the party they name, of the \<open>out\<close>
  wrapper its tag.\<close>

definition NewLocalParty ::
  "PartyID \<Rightarrow> LocalPartySaveData \<Rightarrow> PartyID \<Rightarrow> end_wrapper \<Rightarrow> LocalParty" where
  "NewLocalParty params_party key out_tag end_w =
     \<lparr>party = params_party, save = key, out_pid = out_tag, end_ch = end_w, received = []\<rparr>"

text \<open>Lines 130 to 137 (300 to 307): the importer's engine, with the discard channel.\<close>

definition create_importer :: "config \<Rightarrow> setup_state" where
  "create_importer cfg =
     (let inst = NewLocalParty (importerParty cfg) (impSave cfg) (importerParty cfg)
                   (makeEcEndCh (importerParty cfg) discardEndCh)
      in \<lparr>st_partyMap = Map.empty(Id_p (importerParty cfg) \<mapsto> inst),
          importerPartyInstance = inst, signerPartyInstances = []\<rparr>)"

text \<open>\<^verbatim>\<open>for i, pid := range signerParties\<close> of lines 139 to 162: the check
  \<^verbatim>\<open>pid.KeyInt().Sign() < 0\<close> of the index, then the co-signer's engine, stored at
  \<open>signerPartyInstances[i]\<close> and under its id.\<close>

fun create_signers :: "PartyID list \<Rightarrow> setup_state \<Rightarrow> panic + setup_state" where
  "create_signers [] st = Inr st"
| "create_signers (pid # rest) st =
     (if KeyInt pid < 0 then Inl (Invalid_PartyID (Moniker pid) (KeyInt pid))
      else let inst = NewLocalParty pid NewLocalPartySaveData pid
                        (makeEcEndCh pid signerEndCh)
           in create_signers rest
                (st\<lparr>st_partyMap := (st_partyMap st)(Id_p pid \<mapsto> inst),
                    signerPartyInstances := signerPartyInstances st @ [inst]\<rparr>))"

text \<open>The loop that fills \<open>signerParams\<close>, a slice of length 3, runs first: a fourth
  co-signer is an index out of range there.\<close>

definition create_parties :: "config \<Rightarrow> panic + setup_state" where
  "create_parties cfg =
     (if 3 < length (signerParties cfg) then Inl (Index_out_of_range 3)
      else create_signers (signerParties cfg) (create_importer cfg))"

section \<open>Starting the engines\<close>

text \<open>What the engines do, as far as the driver sees it: the error of each \<^verbatim>\<open>Start()\<close>
  (\<open>None\<close> is nil), the answers to \<^verbatim>\<open>UpdateFromBytes\<close>, the messages put on the \<open>out\<close>
  channels in the order in which they reach \<open>outCh\<close>, and the save data put on the \<open>end\<close>
  channels in the order in which the wrappers forward them.\<close>

datatype party_ref = Importer | Signer nat

record engines =
  signer_Start :: "nat \<Rightarrow> string option"
  importer_Start :: "string option"
  answers :: engine
  emitted :: "(party_ref \<times> Message) list"
  completed :: "(party_ref \<times> LocalPartySaveData) list"

text \<open>A co-signer whose \<^verbatim>\<open>Start()\<close> fails panics, the importer calls \<^verbatim>\<open>log.Fatalf\<close>; either
  ends the process. The goroutines run concurrently and the main goroutine passes
  \<^verbatim>\<open>wg.Wait()\<close> only after every \<^verbatim>\<open>Start()\<close> has returned nil; when several fail, the
  scheduler decides which one ends the process, and the model names the first in program
  order.\<close>

fun start_signers :: "(nat \<Rightarrow> string option) \<Rightarrow> nat list \<Rightarrow> outcome option" where
  "start_signers S [] = None"
| "start_signers S (i # rest) =
     (case S i of Some err \<Rightarrow> Some (Panicked (Start_error err))
      | None \<Rightarrow> start_signers S rest)"

definition launch :: "engines \<Rightarrow> nat \<Rightarrow> outcome option" where
  "launch env n =
     (case start_signers (signer_Start env) [0..<n] of
        Some abort \<Rightarrow> Some abort
      | None \<Rightarrow>
          (case importer_Start env of
             Some err \<Rightarrow> Some (Fatal (Importer_failed err))
           | None \<Rightarrow> None))"

section \<open>The channels\<close>

definition instance_of :: "setup_state \<Rightarrow> party_ref \<Rightarrow> LocalParty option" where
  "instance_of st who =
     (case who of
        Importer \<Rightarrow> Some (importerPartyInstance st)
      | Signer i \<Rightarrow>
          (if i < length (signerPartyInstances st) then Some (signerPartyInstances st ! i)
           else None))"

text \<open>What the router reads from \<open>outCh\<close>: each message tagged by the \<open>out\<close> wrapper of
  the engine that sent it.\<close>

definition outCh :: "setup_state \<Rightarrow> (party_ref \<times> Message) list \<Rightarrow> msg list" where
  "outCh st ems =
     List.map_filter
       (\<lambda>(who, m). map_option (\<lambda>p. makeOutCh (out_pid p) m) (instance_of st who)) ems"

text \<open>\<^verbatim>\<open>endCh <- ecresult{pid: pid, data: *sd}\<close>: a channel is the queue of what was sent on
  it, oldest first.\<close>

definition forward ::
  "end_wrapper \<Rightarrow> LocalPartySaveData \<Rightarrow> (chan_id \<Rightarrow> ecresult list) \<Rightarrow> chan_id \<Rightarrow> ecresult list" where
  "forward w sd chans =
     chans(end_target w := chans (end_target w) @ [\<lparr>res_pid = end_pid w, res_data = sd\<rparr>])"

definition complete ::
  "setup_state \<Rightarrow> party_ref \<times> LocalPartySaveData \<Rightarrow> (chan_id \<Rightarrow> ecresult list)
     \<Rightarrow> chan_id \<Rightarrow> ecresult list" where
  "complete st ev chans =
     (case instance_of st (fst ev) of
        None \<Rightarrow> chans
      | Some p \<Rightarrow> forward (end_ch p) (snd ev) chans)"

definition end_channels ::
  "setup_state \<Rightarrow> (party_ref \<times> LocalPartySaveData) list \<Rightarrow> chan_id \<Rightarrow> ecresult list" where
  "end_channels st evs = fold (complete st) evs (\<lambda>c. [])"

section \<open>Collection and verification\<close>

text \<open>\<^verbatim>\<open>for i := 0; i < 3; i++ { r := <-signerEndCh; results[r.pid.Id] = r }\<close>. The map
  \<open>results\<close> is an association list with one entry per key; a receive on the empty
  channel never returns, which is \<open>None\<close>.\<close>

function collect_loop ::
  "nat \<Rightarrow> ecresult list \<Rightarrow> (string \<times> ecresult) list \<Rightarrow> (string \<times> ecresult) list option" where
  "collect_loop i ch results =
     (if i < 3 then
        (case ch of
           [] \<Rightarrow> None
         | r # ch' \<Rightarrow> collect_loop (i + 1) ch' (AList.update (Id_p (res_pid r)) r results))
      else Some results)"
  by pat_completeness auto
termination
  by (relation "measure (\<lambda>(i, ch, results). 3 - i)") auto

declare collect_loop.simps [simp del]

definition collect :: "ecresult list \<Rightarrow> (string \<times> ecresult) list option" where
  "collect ch = collect_loop 0 ch []"

text \<open>\<^verbatim>\<open>for _, r := range results { totalXi.Add(totalXi, r.data.LocalSecrets.Xi) }\<close>; Go
  visits the entries of a map in no fixed order, the model in the order of the list; the
  result is the same for every order (\<open>sum_Xi_any_order\<close> below). Adding a nil pointer
  panics.\<close>

fun sum_Xi :: "int \<Rightarrow> (string \<times> ecresult) list \<Rightarrow> panic + int" where
  "sum_Xi totalXi [] = Inr totalXi"
| "sum_Xi totalXi (kr # rest) =
     (case Xi (res_data (snd kr)) of
        None \<Rightarrow> Inl Nil_pointer
      | Some x \<Rightarrow> sum_Xi (totalXi + x) rest)"

text \<open>\<^verbatim>\<open>big.Int.Mod\<close> is the Euclidean modulus and panics on a zero modulus;
  \<^verbatim>\<open>big.Int.Cmp\<close> returns -1, 0 or 1.\<close>

definition big_Mod :: "int \<Rightarrow> int \<Rightarrow> panic + int" where
  "big_Mod x y = (if y = 0 then Inl Division_by_zero else Inr (x mod \<bar>y\<bar>))"

definition Cmp :: "int \<Rightarrow> int \<Rightarrow> int" where
  "Cmp x y = (if x < y then - 1 else if x = y then 0 else 1)"

text \<open>Lines 237 to 240 (402 to 405): \<^verbatim>\<open>if plaintextKey.Cmp(impSave.LocalSecrets.Xi) != 0\<close>.
  The total is an argument because the message of \<^verbatim>\<open>log.Fatalf\<close> prints it.\<close>

definition final_check :: "int \<Rightarrow> LocalPartySaveData \<Rightarrow> int \<Rightarrow> outcome" where
  "final_check key imp totalXi =
     (case Xi imp of
        None \<Rightarrow> Panicked Nil_pointer
      | Some x \<Rightarrow>
          (if Cmp key x \<noteq> 0 then Fatal (Xi_mismatch totalXi (Xi imp)) else Success))"

section \<open>A run\<close>

text \<open>The main goroutine of \<^verbatim>\<open>runECDSAResharing\<close> and \<^verbatim>\<open>runEDDSAResharing\<close>, with \<open>N\<close> the
  order of the curve: set-up, start of the engines, collection of three results,
  \<^verbatim>\<open>wg.Wait()\<close>, the sum and the comparison. \<open>totalXi\<close> is the reduced sum when lines 228 to
  235 (393 to 400) have run, and \<open>None\<close> when the run ended before them.\<close>

record run_result =
  outcome :: outcome
  totalXi :: "int option"

definition runResharing :: "int \<Rightarrow> config \<Rightarrow> engines \<Rightarrow> run_result" where
  "runResharing N cfg env =
     (case create_parties cfg of
        Inl p \<Rightarrow> \<lparr>outcome = Panicked p, totalXi = None\<rparr>
      | Inr st \<Rightarrow>
          (case launch env (length (signerParties cfg)) of
             Some abort \<Rightarrow> \<lparr>outcome = abort, totalXi = None\<rparr>
           | None \<Rightarrow>
               (case collect (end_channels st (completed env) signerEndCh) of
                  None \<Rightarrow> \<lparr>outcome = Blocked, totalXi = None\<rparr>
                | Some results \<Rightarrow>
                    (case sum_Xi 0 results of
                       Inl p \<Rightarrow> \<lparr>outcome = Panicked p, totalXi = None\<rparr>
                     | Inr t \<Rightarrow>
                         (case big_Mod t N of
                            Inl p \<Rightarrow> \<lparr>outcome = Panicked p, totalXi = None\<rparr>
                          | Inr t' \<Rightarrow>
                              \<lparr>outcome = final_check (plaintextKey cfg) (impSave cfg) t',
                               totalXi = Some t'\<rparr>)))))"

text \<open>The router goroutine of the same run: it starts from the engines of the set-up and
  handles what reaches \<open>outCh\<close>.\<close>

definition run_router :: "setup_state \<Rightarrow> engines \<Rightarrow> router_state" where
  "run_router st env =
     router (answers env) (outCh st (emitted env)) \<lparr>partyMap = st_partyMap st, lines = []\<rparr>"

section \<open>Notions used to state the properties\<close>

text \<open>The call an engine receives when the envelope \<open>m\<close>, serialised to \<open>payload\<close> and
  \<open>routing\<close>, is delivered to it.\<close>

definition the_delivery :: "msg \<Rightarrow> bytes \<Rightarrow> MessageRouting \<Rightarrow> delivery" where
  "the_delivery m payload routing =
     \<lparr>d_payload = payload, d_from = msg_from m, d_isBroadcast = IsBroadcast routing\<rparr>"



text \<open>No engine is registered under another party's id or has received a message whose
  sender carries its own id; and the state of freshly built engines.\<close>

definition own_mail_free :: "router_state \<Rightarrow> bool" where
  "own_mail_free st \<longleftrightarrow>
     (\<forall>k p. partyMap st k = Some p \<longrightarrow>
        Id_p (party p) = k \<and> (\<forall>d \<in> set (received p). Id_p (d_from d) \<noteq> k))"

definition fresh_parties :: "setup_state \<Rightarrow> bool" where
  "fresh_parties s \<longleftrightarrow>
     (\<forall>k p. st_partyMap s k = Some p \<longrightarrow> Id_p (party p) = k \<and> received p = [])"

text \<open>What an event on an \<open>end\<close> channel puts on the channel \<open>c\<close>.\<close>

definition sent_on :: "setup_state \<Rightarrow> chan_id \<Rightarrow> party_ref \<times> LocalPartySaveData \<Rightarrow> ecresult option" where
  "sent_on st c ev =
     (case instance_of st (fst ev) of
        None \<Rightarrow> None
      | Some p \<Rightarrow>
          (if end_target (end_ch p) = c
           then Some \<lparr>res_pid = end_pid (end_ch p), res_data = snd ev\<rparr>
           else None))"

section \<open>Test scenarios\<close>

text \<open>The order of secp256k1, the curve of \<^verbatim>\<open>runECDSAResharing\<close>.\<close>

definition secp256k1_N :: int where
  "secp256k1_N =
     115792089237316195423570985008687907852837564279074904382605163141518161494337"

definition main_parties :: setup_state where
  "main_parties =
     (case create_parties main_config of
        Inr st \<Rightarrow> st
      | Inl p \<Rightarrow> create_importer main_config)"

definition share :: "int \<Rightarrow> LocalPartySaveData" where
  "share x = \<lparr>Xi = Some x, ShareID = None\<rparr>"

definition accepting :: engine where
  "accepting p d = (True, None)"

definition rejecting :: engine where
  "rejecting p d = (False, Some ''not for this round'')"

definition silent :: engines where
  "silent =
     \<lparr>signer_Start = (\<lambda>i. None), importer_Start = None, answers = accepting,
      emitted = [], completed = []\<rparr>"

text \<open>The three co-signers and the importer complete, with shares that add up to the key.\<close>

definition all_complete :: engines where
  "all_complete =
     silent\<lparr>completed :=
       [(Signer 0, share 100), (Importer, share 0), (Signer 2, share 100),
        (Signer 1, share 55)]\<rparr>"

text \<open>The shares add up to 6, not to the key 255.\<close>

definition wrong_shares :: engines where
  "wrong_shares =
     silent\<lparr>completed := [(Signer 0, share 1), (Signer 1, share 2), (Signer 2, share 3)]\<rparr>"

text \<open>The first co-signer reports twice, the third never.\<close>

definition reports_twice :: engines where
  "reports_twice =
     silent\<lparr>completed := [(Signer 0, share 1), (Signer 0, share 2), (Signer 1, share 3)]\<rparr>"

text \<open>The second co-signer reports twice, the third never.\<close>

definition second_reports_twice :: engines where
  "second_reports_twice =
     silent\<lparr>completed := [(Signer 1, share 5), (Signer 0, share 50), (Signer 1, share 200)]\<rparr>"

text \<open>The engine of the party with index 2 fails to start.\<close>

definition second_fails :: engines where
  "second_fails =
     all_complete\<lparr>signer_Start := (\<lambda>i. if i = 1 then Some ''start failed'' else None)\<rparr>"

text \<open>Envelopes: a broadcast of the importer that names the first co-signer only; a
  message of the first co-signer that names itself, the second co-signer and a party
  without engine; a message that does not serialise.\<close>

definition broadcast_to_one :: Message where
  "broadcast_to_one =
     \<lparr>WireBytes = Inr ([1, 2, 3],
        \<lparr>To = [(NewPartyID ''signer1'' ''Signer1'' 1)],
         IsBroadcast = True\<rparr>),
      Type_m = ''DGRound1Message''\<rparr>"

definition to_self_and_others :: Message where
  "to_self_and_others =
     \<lparr>WireBytes = Inr ([4, 5],
        \<lparr>To = [(NewPartyID ''signer1'' ''Signer1'' 1),
               (NewPartyID ''signer9'' ''Signer9'' 9),
               (NewPartyID ''signer2'' ''Signer2'' 2)],
         IsBroadcast = False\<rparr>),
      Type_m = ''DGRound2Message2''\<rparr>"

definition broken :: Message where
  "broken = \<lparr>WireBytes = Inl ''marshal failed'', Type_m = ''DGRound3Message1''\<rparr>"


section \<open>The router: lemmas\<close>

lemma partyMap_say [simp]: "partyMap (say l st) = partyMap st"
  by (simp add: say_def)

lemma lines_say [simp]: "lines (say l st) = lines st @ [l]"
  by (simp add: say_def)

lemma partyMap_route_to:
  "partyMap (route_to U m payload routing to st) =
     (if Id_p to = Id_p (msg_from m) then partyMap st
      else case partyMap st (Id_p to) of
             None \<Rightarrow> partyMap st
           | Some p \<Rightarrow> (partyMap st)(Id_p to \<mapsto>
                 p\<lparr>received := received p @ [the_delivery m payload routing]\<rparr>))"
  by (simp add: route_to_def UpdateFromBytes_def the_delivery_def Let_def
      split: option.split prod.split)

lemma partyMap_route_to_at:
  "partyMap (route_to U m payload routing to st) k =
     (if Id_p to = k \<and> k \<noteq> Id_p (msg_from m)
      then map_option (\<lambda>p. p\<lparr>received := received p @ [the_delivery m payload routing]\<rparr>)
             (partyMap st k)
      else partyMap st k)"
  by (auto simp add: partyMap_route_to split: option.split)

lemma partyMap_fold_route_to:
  "partyMap (fold (route_to U m payload routing) tos st) k =
     map_option (\<lambda>p. p\<lparr>received := received p @
         replicate (count_list (map Id_p (filter (\<lambda>t. Id_p t \<noteq> Id_p (msg_from m)) tos)) k)
           (the_delivery m payload routing)\<rparr>) (partyMap st k)"
proof (induction tos arbitrary: st)
  case Nil
  show ?case by (cases "partyMap st k") simp_all
next
  case (Cons to tos)
  show ?case
    by (cases "partyMap st k")
       (auto simp add: Cons.IH partyMap_route_to_at replicate_app_Cons_same)
qed

lemma own_mail_free_route_to:
  "own_mail_free st \<Longrightarrow> own_mail_free (route_to U m payload routing to st)"
  unfolding own_mail_free_def
  by (auto simp add: partyMap_route_to_at the_delivery_def split: if_splits)

lemma own_mail_free_fold_route_to:
  "own_mail_free st \<Longrightarrow> own_mail_free (fold (route_to U m payload routing) tos st)"
  by (induction tos arbitrary: st) (simp_all add: own_mail_free_route_to)

lemma own_mail_free_say: "own_mail_free (say l st) = own_mail_free st"
  by (simp add: own_mail_free_def)

lemma own_mail_free_route_msg: "own_mail_free st \<Longrightarrow> own_mail_free (route_msg U m st)"
  by (simp add: route_msg_def own_mail_free_fold_route_to own_mail_free_say
      split: sum.split prod.split)

lemma own_mail_free_router: "own_mail_free st \<Longrightarrow> own_mail_free (router U ms st)"
  unfolding router_def
  by (induction ms arbitrary: st) (simp_all add: own_mail_free_route_msg)

lemma fresh_create_importer: "fresh_parties (create_importer cfg)"
  by (simp add: fresh_parties_def create_importer_def NewLocalParty_def Let_def)

lemma fresh_create_signers:
  "create_signers pids s = Inr s' \<Longrightarrow> fresh_parties s \<Longrightarrow> fresh_parties s'"
proof (induction pids arbitrary: s)
  case Nil
  then show ?case by simp
next
  case (Cons pid pids)
  from Cons.prems(1) have neg: "\<not> KeyInt pid < 0"
    by (auto split: if_splits)
  let ?inst = "NewLocalParty pid NewLocalPartySaveData pid (makeEcEndCh pid signerEndCh)"
  let ?s = "s\<lparr>st_partyMap := (st_partyMap s)(Id_p pid \<mapsto> ?inst),
              signerPartyInstances := signerPartyInstances s @ [?inst]\<rparr>"
  from Cons.prems(1) neg have rest: "create_signers pids ?s = Inr s'"
    by (simp add: Let_def)
  from Cons.prems(2) have "fresh_parties ?s"
    by (auto simp add: fresh_parties_def NewLocalParty_def)
  with rest show ?case by (rule Cons.IH)
qed

lemma fresh_create_parties: "create_parties cfg = Inr s \<Longrightarrow> fresh_parties s"
  by (auto simp add: create_parties_def split: if_splits
      intro: fresh_create_signers fresh_create_importer)

lemma own_mail_free_run_router:
  "create_parties cfg = Inr s \<Longrightarrow> own_mail_free (run_router s env)"
  unfolding run_router_def
  by (rule own_mail_free_router)
     (auto dest!: fresh_create_parties simp add: own_mail_free_def fresh_parties_def)






lemma partyMap_route_to_cong:
  assumes "partyMap st = partyMap st'"
  shows "partyMap (route_to U m payload routing to st) =
         partyMap (route_to U m payload routing to st')"
  unfolding partyMap_route_to assms by (rule refl)

lemma partyMap_fold_route_to_cong:
  "partyMap st = partyMap st' \<Longrightarrow>
   partyMap (fold (route_to U m payload routing) tos st) =
   partyMap (fold (route_to U m payload routing) tos st')"
proof (induction tos arbitrary: st st')
  case Nil
  then show ?case by simp
next
  case (Cons to tos)
  have "partyMap (route_to U m payload routing to st) =
        partyMap (route_to U m payload routing to st')"
    using Cons.prems by (rule partyMap_route_to_cong)
  then have "partyMap (fold (route_to U m payload routing) tos (route_to U m payload routing to st)) =
        partyMap (fold (route_to U m payload routing) tos (route_to U m payload routing to st'))"
    by (rule Cons.IH)
  then show ?case by simp
qed

lemma partyMap_route_msg_cong:
  assumes same: "partyMap st = partyMap st'"
  shows "partyMap (route_msg U m st) = partyMap (route_msg U m st')"
proof (cases "WireBytes (msg_data m)")
  case (Inl err)
  then show ?thesis
    using same by (simp add: route_msg_def)
next
  case (Inr pr)
  obtain payload routing where pr: "pr = (payload, routing)"
    by (cases pr)
  have "partyMap (say (Sending (Id_p (msg_from m)) (Type_m (msg_data m))) st) =
        partyMap (say (Sending (Id_p (msg_from m)) (Type_m (msg_data m))) st')"
    using same by simp
  then have "partyMap (fold (route_to U m payload routing) (To routing)
                 (say (Sending (Id_p (msg_from m)) (Type_m (msg_data m))) st)) =
             partyMap (fold (route_to U m payload routing) (To routing)
                 (say (Sending (Id_p (msg_from m)) (Type_m (msg_data m))) st'))"
    by (rule partyMap_fold_route_to_cong)
  then show ?thesis
    using Inr pr by (simp add: route_msg_def)
qed

lemma partyMap_router_cong:
  "partyMap st = partyMap st' \<Longrightarrow> partyMap (router U ms st) = partyMap (router U ms st')"
proof (induction ms arbitrary: st st')
  case Nil
  then show ?case by (simp add: router_def)
next
  case (Cons m ms)
  have "partyMap (route_msg U m st) = partyMap (route_msg U m st')"
    using Cons.prems by (rule partyMap_route_msg_cong)
  then have "partyMap (router U ms (route_msg U m st)) =
             partyMap (router U ms (route_msg U m st'))"
    by (rule Cons.IH)
  then show ?case by (simp add: router_def)
qed

lemma router_append: "router U (ms1 @ ms2) st = router U ms2 (router U ms1 st)"
  by (simp add: router_def)

lemma router_Cons: "router U (m # ms) st = router U ms (route_msg U m st)"
  by (simp add: router_def)

section \<open>Collection: lemmas\<close>

lemma collect_loop_eq:
  "collect_loop i ch results =
     (if length ch < 3 - i then None
      else Some (fold (\<lambda>r. AList.update (Id_p (res_pid r)) r) (take (3 - i) ch) results))"
proof (induction i ch results rule: collect_loop.induct)
  case (1 i ch results)
  show ?case
  proof (cases "i < 3")
    case False
    then show ?thesis by (simp add: collect_loop.simps [of i])
  next
    case True
    show ?thesis
    proof (cases ch)
      case Nil
      with True show ?thesis by (simp add: collect_loop.simps [of i])
    next
      case (Cons r ch')
      from True have step: "3 - i = Suc (3 - (i + 1))" by simp
      from True Cons "1.IH" [OF True Cons]
      show ?thesis
        by (simp add: collect_loop.simps [of i "r # ch'"] step del: One_nat_def) 
    qed
  qed
qed

lemma collect_eq:
  "collect ch =
     (if length ch < 3 then None
      else Some (fold (\<lambda>r. AList.update (Id_p (res_pid r)) r) (take 3 ch) []))"
  by (simp add: collect_def collect_loop_eq)

lemma find_app: "List.find P (xs @ ys) = (case List.find P xs of Some x \<Rightarrow> Some x | None \<Rightarrow> List.find P ys)"
  by (induction xs) simp_all

lemma map_of_fold_update:
  "map_of (fold (\<lambda>r. AList.update (Id_p (res_pid r)) r) rs results) k =
     (case List.find (\<lambda>r. Id_p (res_pid r) = k) (rev rs) of
        Some r \<Rightarrow> Some r
      | None \<Rightarrow> map_of results k)"
proof (induction rs arbitrary: results)
  case Nil
  show ?case by simp
next
  case (Cons r rs)
  show ?case
    by (simp add: Cons.IH find_app AList.update_conv' split: option.split)
qed

lemma keys_fold_update:
  "fst ` set (fold (\<lambda>r. AList.update (Id_p (res_pid r)) r) rs results) =
     (\<lambda>r. Id_p (res_pid r)) ` set rs \<union> fst ` set results"
  by (induction rs arbitrary: results) (auto simp add: AList.dom_update)

lemma distinct_fold_update:
  "distinct (map fst results) \<Longrightarrow>
   distinct (map fst (fold (\<lambda>r. AList.update (Id_p (res_pid r)) r) rs results))"
  by (induction rs arbitrary: results) (simp_all add: AList.distinct_update)

lemma complete_at:
  "complete st ev chans c =
     chans c @ (case sent_on st c ev of None \<Rightarrow> [] | Some r \<Rightarrow> [r])"
  by (simp add: complete_def forward_def sent_on_def split: option.split)

lemma fold_complete:
  "fold (complete st) evs chans c = chans c @ List.map_filter (sent_on st c) evs"
proof (induction evs arbitrary: chans)
  case Nil
  show ?case by simp
next
  case (Cons ev evs)
  have "fold (complete st) (ev # evs) chans c = fold (complete st) evs (complete st ev chans) c"
    by simp
  also have "\<dots> = complete st ev chans c @ List.map_filter (sent_on st c) evs"
    by (rule Cons.IH)
  also have "\<dots> = chans c @ List.map_filter (sent_on st c) (ev # evs)"
    by (simp add: complete_at split: option.split)
  finally show ?case .
qed

lemma end_channels_eq: "end_channels st evs c = List.map_filter (sent_on st c) evs"
  by (simp add: end_channels_def fold_complete)

lemma create_signers_instances:
  "create_signers pids s = Inr s' \<Longrightarrow>
     importerPartyInstance s' = importerPartyInstance s \<and>
     signerPartyInstances s' =
       signerPartyInstances s @
       map (\<lambda>pid. NewLocalParty pid NewLocalPartySaveData pid (makeEcEndCh pid signerEndCh)) pids"
proof (induction pids arbitrary: s)
  case Nil
  then show ?case by simp
next
  case (Cons pid pids)
  from Cons.prems have neg: "\<not> KeyInt pid < 0"
    by (auto split: if_splits)
  let ?inst = "NewLocalParty pid NewLocalPartySaveData pid (makeEcEndCh pid signerEndCh)"
  let ?s = "s\<lparr>st_partyMap := (st_partyMap s)(Id_p pid \<mapsto> ?inst),
              signerPartyInstances := signerPartyInstances s @ [?inst]\<rparr>"
  from Cons.prems neg have "create_signers pids ?s = Inr s'"
    by (simp add: Let_def)
  from Cons.IH [OF this] show ?case by simp
qed

lemma create_parties_instances:
  assumes "create_parties cfg = Inr st"
  shows "importerPartyInstance st =
           NewLocalParty (importerParty cfg) (impSave cfg) (importerParty cfg)
             (makeEcEndCh (importerParty cfg) discardEndCh)"
    and "signerPartyInstances st =
           map (\<lambda>pid. NewLocalParty pid NewLocalPartySaveData pid (makeEcEndCh pid signerEndCh))
             (signerParties cfg)"
proof -
  from assms have "create_signers (signerParties cfg) (create_importer cfg) = Inr st"
    by (simp add: create_parties_def split: if_splits)
  from create_signers_instances [OF this]
  show "importerPartyInstance st =
           NewLocalParty (importerParty cfg) (impSave cfg) (importerParty cfg)
             (makeEcEndCh (importerParty cfg) discardEndCh)"
    and "signerPartyInstances st =
           map (\<lambda>pid. NewLocalParty pid NewLocalPartySaveData pid (makeEcEndCh pid signerEndCh))
             (signerParties cfg)"
    by (simp_all add: create_importer_def Let_def)
qed

lemma sent_on_created:
  assumes "create_parties cfg = Inr st"
  shows "sent_on st c ev =
     (case fst ev of
        Importer \<Rightarrow>
          (if c = discardEndCh then Some \<lparr>res_pid = importerParty cfg, res_data = snd ev\<rparr>
           else None)
      | Signer i \<Rightarrow>
          (if i < length (signerParties cfg) \<and> c = signerEndCh
           then Some \<lparr>res_pid = signerParties cfg ! i, res_data = snd ev\<rparr>
           else None))"
  by (auto simp add: sent_on_def instance_of_def create_parties_instances [OF assms]
      NewLocalParty_def makeEcEndCh_def split: party_ref.split)

lemma map_filter_filter_None:
  "(\<And>x. x \<in> set xs \<Longrightarrow> \<not> P x \<Longrightarrow> f x = None) \<Longrightarrow>
   List.map_filter f (filter P xs) = List.map_filter f xs"
  by (induction xs) (simp_all split: option.split)

lemma signerEndCh_without_importer:
  assumes "create_parties cfg = Inr st"
  shows "end_channels st (filter (\<lambda>ev. fst ev \<noteq> Importer) evs) signerEndCh =
         end_channels st evs signerEndCh"
  unfolding end_channels_eq
  by (rule map_filter_filter_None) (simp add: sent_on_created [OF assms])

lemma discardEndCh_eq:
  assumes "create_parties cfg = Inr st"
  shows "end_channels st evs discardEndCh =
         map (\<lambda>ev. \<lparr>res_pid = importerParty cfg, res_data = snd ev\<rparr>)
           (filter (\<lambda>ev. fst ev = Importer) evs)"
  unfolding end_channels_eq
  by (induction evs) (simp_all add: sent_on_created [OF assms] split: party_ref.split)

lemma distinct_ids_index:
  "distinct (map Id_p ps) \<Longrightarrow> i < length ps \<Longrightarrow> j < length ps \<Longrightarrow>
   Id_p (ps ! j) = Id_p (ps ! i) \<Longrightarrow> j = i"
  using nth_eq_iff_index_eq [of "map Id_p ps" j i] by simp

lemma signerEndCh_member_conv:
  assumes "create_parties cfg = Inr st"
  shows "r \<in> set (end_channels st evs signerEndCh) \<longleftrightarrow>
         (\<exists>i sd. (Signer i, sd) \<in> set evs \<and> i < length (signerParties cfg) \<and>
            r = \<lparr>res_pid = signerParties cfg ! i, res_data = sd\<rparr>)"
  unfolding end_channels_eq
proof (induction evs)
  case Nil
  show ?case by simp
next
  case (Cons ev evs)
  obtain who sd where ev: "ev = (who, sd)" by (cases ev)
  show ?case
  proof (cases who)
    case Importer
    with ev Cons.IH show ?thesis
      by (simp add: sent_on_created [OF assms])
  next
    case (Signer j)
    with ev Cons.IH show ?thesis
      by (auto simp add: sent_on_created [OF assms])
  qed
qed

lemma signerEndCh_keys_distinct:
  assumes made: "create_parties cfg = Inr st"
    and ids: "distinct (map Id_p (signerParties cfg))"
    and once: "distinct (map fst evs)"
  shows "distinct (map (\<lambda>r. Id_p (res_pid r)) (end_channels st evs signerEndCh))"
  using once
proof (induction evs)
  case Nil
  show ?case by (simp add: end_channels_eq)
next
  case (Cons ev evs)
  obtain who sd where ev: "ev = (who, sd)" by (cases ev)
  from Cons.prems have tail: "distinct (map fst evs)" and new: "who \<notin> fst ` set evs"
    by (simp_all add: ev)
  have IH: "distinct (map (\<lambda>r. Id_p (res_pid r)) (end_channels st evs signerEndCh))"
    using tail by (rule Cons.IH)
  show ?case
  proof (cases "sent_on st signerEndCh ev")
    case None
    with IH show ?thesis by (simp add: end_channels_eq)
  next
    case (Some r)
    then obtain i where who: "who = Signer i" and i: "i < length (signerParties cfg)"
      and r: "r = \<lparr>res_pid = signerParties cfg ! i, res_data = sd\<rparr>"
      by (auto simp add: sent_on_created [OF made] ev split: party_ref.splits if_splits)
    have "Id_p (res_pid r) \<notin> (\<lambda>r. Id_p (res_pid r)) ` set (end_channels st evs signerEndCh)"
    proof
      assume "Id_p (res_pid r) \<in> (\<lambda>r. Id_p (res_pid r)) ` set (end_channels st evs signerEndCh)"
      then obtain r' where r': "r' \<in> set (end_channels st evs signerEndCh)"
        and same: "Id_p (res_pid r') = Id_p (res_pid r)"
        by auto
      from r' obtain j sd' where j: "(Signer j, sd') \<in> set evs" "j < length (signerParties cfg)"
        "r' = \<lparr>res_pid = signerParties cfg ! j, res_data = sd'\<rparr>"
        unfolding signerEndCh_member_conv [OF made] by blast
      from same r j(3) have "Id_p (signerParties cfg ! j) = Id_p (signerParties cfg ! i)"
        by simp
      with ids i j(2) have "j = i"
        by (rule distinct_ids_index)
      with j(1) who have "who \<in> fst ` set evs"
        by force
      with new show False by contradiction
    qed
    with IH Some show ?thesis
      by (simp add: end_channels_eq)
  qed
qed

lemma signerEndCh_keys:
  assumes made: "create_parties cfg = Inr st"
    and ids: "distinct (map Id_p (signerParties cfg))"
    and i: "i < length (signerParties cfg)"
  shows "Id_p (signerParties cfg ! i) \<in>
           (\<lambda>r. Id_p (res_pid r)) ` set (end_channels st evs signerEndCh) \<longleftrightarrow>
         Signer i \<in> fst ` set evs"
proof
  assume "Id_p (signerParties cfg ! i) \<in>
           (\<lambda>r. Id_p (res_pid r)) ` set (end_channels st evs signerEndCh)"
  then obtain r where r: "r \<in> set (end_channels st evs signerEndCh)"
    and same: "Id_p (res_pid r) = Id_p (signerParties cfg ! i)"
    by auto
  from r obtain j sd where j: "(Signer j, sd) \<in> set evs" "j < length (signerParties cfg)"
    "r = \<lparr>res_pid = signerParties cfg ! j, res_data = sd\<rparr>"
    unfolding signerEndCh_member_conv [OF made] by blast
  from same j(3) have "Id_p (signerParties cfg ! j) = Id_p (signerParties cfg ! i)"
    by simp
  with ids i j(2) have "j = i"
    by (rule distinct_ids_index)
  with j(1) show "Signer i \<in> fst ` set evs" by force
next
  assume "Signer i \<in> fst ` set evs"
  then obtain sd where "(Signer i, sd) \<in> set evs" by auto
  with i have "\<lparr>res_pid = signerParties cfg ! i, res_data = sd\<rparr>
      \<in> set (end_channels st evs signerEndCh)"
    unfolding signerEndCh_member_conv [OF made] by blast
  then show "Id_p (signerParties cfg ! i) \<in>
           (\<lambda>r. Id_p (res_pid r)) ` set (end_channels st evs signerEndCh)"
    by force
qed

lemma signerEndCh_keys_subset:
  assumes made: "create_parties cfg = Inr st"
  shows "(\<lambda>r. Id_p (res_pid r)) ` set (end_channels st evs signerEndCh)
           \<subseteq> Id_p ` set (signerParties cfg)"
proof
  fix k
  assume "k \<in> (\<lambda>r. Id_p (res_pid r)) ` set (end_channels st evs signerEndCh)"
  then obtain r where r: "r \<in> set (end_channels st evs signerEndCh)"
    and k: "k = Id_p (res_pid r)"
    by auto
  from r obtain j sd where "j < length (signerParties cfg)"
    "r = \<lparr>res_pid = signerParties cfg ! j, res_data = sd\<rparr>"
    unfolding signerEndCh_member_conv [OF made] by blast
  with k show "k \<in> Id_p ` set (signerParties cfg)" by simp
qed

lemma signerEndCh_length:
  assumes made: "create_parties cfg = Inr st"
    and ids: "distinct (map Id_p (signerParties cfg))"
    and once: "distinct (map fst evs)"
  shows "length (end_channels st evs signerEndCh) \<le> length (signerParties cfg)"
    and "length (end_channels st evs signerEndCh) = length (signerParties cfg) \<longleftrightarrow>
         (\<forall>i<length (signerParties cfg). Signer i \<in> fst ` set evs)"
proof -
  let ?S = "end_channels st evs signerEndCh"
  let ?K = "(\<lambda>r. Id_p (res_pid r)) ` set ?S"
  let ?A = "Id_p ` set (signerParties cfg)"
  have len: "length ?S = card ?K"
    using distinct_card [OF signerEndCh_keys_distinct [OF made ids once]] by simp
  have all: "card ?A = length (signerParties cfg)"
    using distinct_card [OF ids] by simp
  have sub: "?K \<subseteq> ?A" by (rule signerEndCh_keys_subset [OF made])
  have fin: "finite ?A" by simp
  from card_mono [OF fin sub] len all show "length ?S \<le> length (signerParties cfg)" by simp
  show "length ?S = length (signerParties cfg) \<longleftrightarrow>
         (\<forall>i<length (signerParties cfg). Signer i \<in> fst ` set evs)"
  proof
    assume "length ?S = length (signerParties cfg)"
    with len all have "card ?K = card ?A" by simp
    with sub fin have eq: "?K = ?A" by (simp add: card_subset_eq)
    show "\<forall>i<length (signerParties cfg). Signer i \<in> fst ` set evs"
    proof (intro allI impI)
      fix i assume i: "i < length (signerParties cfg)"
      then have "Id_p (signerParties cfg ! i) \<in> ?A" by simp
      with eq have "Id_p (signerParties cfg ! i) \<in> ?K" by simp
      then show "Signer i \<in> fst ` set evs"
        unfolding signerEndCh_keys [OF made ids i] .
    qed
  next
    assume a: "\<forall>i<length (signerParties cfg). Signer i \<in> fst ` set evs"
    have "?A \<subseteq> ?K"
    proof
      fix k assume "k \<in> ?A"
      then obtain i where i: "i < length (signerParties cfg)" and k: "k = Id_p (signerParties cfg ! i)"
        by (auto simp add: in_set_conv_nth)
      from a i have "Signer i \<in> fst ` set evs" by simp
      then have "Id_p (signerParties cfg ! i) \<in> ?K"
        unfolding signerEndCh_keys [OF made ids i] .
      with k show "k \<in> ?K" by simp
    qed
    with sub have "?K = ?A" by (rule equalityI)
    with len all show "length ?S = length (signerParties cfg)" by simp
  qed
qed

lemma start_signers_Some:
  "start_signers S idxs = Some a \<Longrightarrow> \<exists>i \<in> set idxs. \<exists>e. S i = Some e \<and> a = Panicked (Start_error e)"
  by (induction idxs) (auto split: option.splits)

lemma start_signers_None: "start_signers S idxs = None \<longleftrightarrow> (\<forall>i \<in> set idxs. S i = None)"
  by (induction idxs) (auto split: option.splits)

lemma launch_Some:
  assumes "launch env n = Some a"
  shows "(\<exists>i<n. \<exists>e. signer_Start env i = Some e \<and> a = Panicked (Start_error e)) \<or>
         (\<exists>e. importer_Start env = Some e \<and> a = Fatal (Importer_failed e))"
proof (cases "start_signers (signer_Start env) [0..<n]")
  case None
  with assms show ?thesis
    by (auto simp add: launch_def split: option.splits)
next
  case (Some b)
  with assms have "b = a" by (simp add: launch_def)
  with start_signers_Some [OF Some] show ?thesis by auto
qed

lemma launch_None:
  "launch env n = None \<longleftrightarrow> (\<forall>i<n. signer_Start env i = None) \<and> importer_Start env = None"
  by (auto simp add: launch_def start_signers_None split: option.splits
      dest!: start_signers_Some)

lemma find_SomeD: "List.find P xs = Some x \<Longrightarrow> x \<in> set xs \<and> P x"
  by (induction xs) (auto split: if_splits)

lemma length_update_present:
  "k \<in> fst ` set al \<Longrightarrow> length (AList.update k v al) = length al"
  by (induction al) auto

lemma run_Success_collected:
  assumes "create_parties cfg = Inr st" and "outcome (runResharing N cfg env) = Success"
  shows "\<exists>results. collect (end_channels st (completed env) signerEndCh) = Some results"
proof (cases "collect (end_channels st (completed env) signerEndCh)")
  case None
  with assms show ?thesis
    by (auto simp add: runResharing_def split: option.splits dest: launch_Some)
next
  case (Some results)
  then show ?thesis by simp
qed

lemma final_check_own_key: "final_check (plaintextKey cfg) (impSave cfg) t = Success"
  by (simp add: final_check_def impSave_def NewLocalPartySaveData_def Cmp_def)

lemma runResharing_completed_cong:
  assumes "create_parties cfg = Inr st"
    and "end_channels st (completed env) signerEndCh = end_channels st (completed env') signerEndCh"
    and "signer_Start env = signer_Start env'" and "importer_Start env = importer_Start env'"
  shows "runResharing N cfg env = runResharing N cfg env'"
  using assms by (simp add: runResharing_def launch_def cong: option.case_cong)

lemma foldl_nat_bytes: "foldl (\<lambda>acc b. acc * 256 + b) 0 (nat_bytes n) = n"
proof (induction n rule: nat_bytes.induct)
  case (1 n)
  show ?case
  proof (cases "n = 0")
    case True
    then show ?thesis by (simp add: nat_bytes.simps [of 0])
  next
    case False
    with "1.IH" show ?thesis
      by (simp add: nat_bytes.simps [of n])
  qed
qed

lemma SetBytes_Bytes: "SetBytes (Bytes x) = \<bar>x\<bar>"
  by (simp add: SetBytes_def Bytes_def foldl_nat_bytes)

lemma KeyInt_NewPartyID: "KeyInt (NewPartyID i m k) = \<bar>k\<bar>"
  by (simp add: KeyInt_def NewPartyID_def SetBytes_Bytes)

lemma KeyInt_nonneg: "0 \<le> KeyInt pid"
  by (simp add: KeyInt_def SetBytes_def)

lemma KeyInt_not_negative [simp]: "\<not> KeyInt pid < 0"
  using KeyInt_nonneg [of pid] by simp

lemma Id_p_NewPartyID [simp]: "Id_p (NewPartyID i m k) = i"
  by (simp add: NewPartyID_def)

lemma create_signers_never_panics: "\<exists>s'. create_signers pids s = Inr s'"
proof (induction pids arbitrary: s)
  case Nil
  show ?case by simp
next
  case (Cons pid pids)
  show ?case
    using Cons.IH by (simp add: Let_def)
qed

lemma create_parties_panics_iff:
  "create_parties cfg = Inl p \<longleftrightarrow>
     3 < length (signerParties cfg) \<and> p = Index_out_of_range 3"
proof (cases "3 < length (signerParties cfg)")
  case True
  then show ?thesis by (auto simp add: create_parties_def)
next
  case False
  obtain s' where "create_signers (signerParties cfg) (create_importer cfg) = Inr s'"
    using create_signers_never_panics by blast
  with False show ?thesis by (simp add: create_parties_def)
qed

lemma main_parties_made: "create_parties main_config = Inr main_parties"
  unfolding main_parties_def
  by (simp add: create_parties_def main_config_def NewPartyID_def Let_def)

lemma mismatch_never_reported:
  "outcome (runResharing N cfg env) \<noteq> Fatal (Xi_mismatch t x)"
  by (auto simp add: runResharing_def final_check_own_key
      split: sum.splits option.splits dest: launch_Some)

lemma sum_Xi_eq:
  "sum_Xi t rs =
     (if \<forall>kr \<in> set rs. Xi (res_data (snd kr)) \<noteq> None
      then Inr (t + sum_list (map (\<lambda>kr. the (Xi (res_data (snd kr)))) rs))
      else Inl Nil_pointer)"
proof (induction rs arbitrary: t)
  case Nil
  show ?case by simp
next
  case (Cons kr rs)
  show ?case
  proof (cases "Xi (res_data (snd kr))")
    case None
    then show ?thesis by simp
  next
    case (Some x)
    then show ?thesis by (simp add: Cons.IH)
  qed
qed

lemma sum_Xi_any_order:
  assumes same: "mset rs = mset rs'"
  shows "sum_Xi t rs = sum_Xi t rs'"
proof -
  let ?f = "\<lambda>kr. the (Xi (res_data (snd kr)))"
  from same have sets: "set rs = set rs'"
    by (rule mset_eq_setD)
  from same have maps: "mset (map ?f rs) = mset (map ?f rs')"
    by simp
  have "sum_list (map ?f rs) = sum_mset (mset (map ?f rs))"
    by (rule sum_mset_sum_list [symmetric])
  also have "\<dots> = sum_mset (mset (map ?f rs'))"
    by (simp only: maps)
  also have "\<dots> = sum_list (map ?f rs')"
    by (rule sum_mset_sum_list)
  finally have "sum_list (map ?f rs) = sum_list (map ?f rs')" .
  with sets show ?thesis
    by (simp only: sum_Xi_eq)
qed

lemma run_total_is_reduced_sum:
  assumes "create_parties cfg = Inr st"
    and "launch env (length (signerParties cfg)) = None"
    and "collect (end_channels st (completed env) signerEndCh) = Some results"
    and "sum_Xi 0 results = Inr t"
    and "N \<noteq> 0"
  shows "runResharing N cfg env = \<lparr>outcome = Success, totalXi = Some (t mod \<bar>N\<bar>)\<rparr>"
  using assms by (simp add: runResharing_def big_Mod_def final_check_own_key)

section \<open>The properties of the specification\<close>

subsection \<open>C1: the final comparison\<close>

text \<open>C1. The driver adds the \<open>Xi\<close> of the collected results and reduces the sum
  modulo the order of the curve, but the comparison of lines 237 (402) reads
  \<^verbatim>\<open>plaintextKey.Cmp(impSave.LocalSecrets.Xi)\<close>: the key against
  the importer's own copy of it, not against the total. With shares 1, 2 and 3 and the
  key 255 the total is 6 and the run still ends with the success line; by
  \<open>mismatch_never_reported\<close> no run ends with the fatal mismatch. The
  comment above the loop and the text of the fatal message say that the total was meant.\<close>

theorem C1_mismatch_reported_as_success:
  "runResharing secp256k1_N main_config wrong_shares =
     \<lparr>outcome = Success, totalXi = Some 6\<rparr> \<and>
   plaintextKey main_config = 255"
  by code_simp

subsection \<open>C2: one result per co-signer\<close>

text \<open>C2 as stated fails: the loop counts three receipts and does not look at who sent
  them. With the three co-signers of main.go, when the second co-signer reports twice and
  the third never, the run ends with the success line and the results hold two entries,
  none for the third co-signer.\<close>

theorem C2_three_receipts_two_signers:
  "length (signerParties main_config) = 3 \<and>
   distinct (map Id_p (signerParties main_config)) \<and>
   map (Id_p \<circ> res_pid)
     (end_channels main_parties (completed second_reports_twice) signerEndCh) =
     [''signer2'', ''signer1'', ''signer2''] \<and>
   map_option (map fst)
     (collect (end_channels main_parties (completed second_reports_twice) signerEndCh)) =
     Some [''signer2'', ''signer1''] \<and>
   runResharing secp256k1_N main_config second_reports_twice =
     \<lparr>outcome = Success, totalXi = Some 250\<rparr>"
  by code_simp

text \<open>C2, amended. For three co-signers with distinct ids whose engines each put at most
  one save data on their \<open>end\<close> channel, the collection loop returns exactly when all
  three co-signers have completed and waits for ever otherwise; the results then have
  three entries with distinct keys, the keys are the ids of the co-signers, and the
  entry of each co-signer is the save data that co-signer reported. A run that ends with
  the success line has collected them.\<close>

theorem C2_one_result_per_signer:
  assumes made: "create_parties cfg = Inr st"
    and three: "length (signerParties cfg) = 3"
    and ids: "distinct (map Id_p (signerParties cfg))"
    and once: "distinct (map fst (completed env))"
  shows
   "(collect (end_channels st (completed env) signerEndCh) = None \<longleftrightarrow>
       (\<exists>i<3. Signer i \<notin> fst ` set (completed env))) \<and>
    (\<forall>results. collect (end_channels st (completed env) signerEndCh) = Some results \<longrightarrow>
        length results = 3 \<and> distinct (map fst results) \<and>
        fst ` set results = Id_p ` set (signerParties cfg) \<and>
        (\<forall>i<3. \<exists>sd. (Signer i, sd) \<in> set (completed env) \<and>
            map_of results (Id_p (signerParties cfg ! i)) =
              Some \<lparr>res_pid = signerParties cfg ! i, res_data = sd\<rparr>)) \<and>
    (outcome (runResharing N cfg env) = Success \<longrightarrow>
       (\<exists>results. collect (end_channels st (completed env) signerEndCh) = Some results))"
proof (intro conjI allI impI)
  let ?S = "end_channels st (completed env) signerEndCh"
  let ?upd = "\<lambda>r. AList.update (Id_p (res_pid r)) r"
  have le: "length ?S \<le> 3"
    using signerEndCh_length(1) [OF made ids once] three by simp
  have full: "length ?S = 3 \<longleftrightarrow> (\<forall>i<3. Signer i \<in> fst ` set (completed env))"
    using signerEndCh_length(2) [OF made ids once] three by simp
  from le full show "collect ?S = None \<longleftrightarrow> (\<exists>i<3. Signer i \<notin> fst ` set (completed env))"
    by (auto simp add: collect_eq)
  show "\<exists>results. collect ?S = Some results" if "outcome (runResharing N cfg env) = Success"
    using made that by (rule run_Success_collected)
  fix results
  assume got: "collect ?S = Some results"
  with le have len: "length ?S = 3" and res: "results = fold ?upd ?S []"
    by (simp_all add: collect_eq split: if_splits)
  from len full have present: "\<forall>i<3. Signer i \<in> fst ` set (completed env)"
    by simp
  have keys: "fst ` set results = (\<lambda>r. Id_p (res_pid r)) ` set ?S"
    by (simp add: res keys_fold_update)
  show dist: "distinct (map fst results)"
    by (simp add: res distinct_fold_update)
  have "Id_p ` set (signerParties cfg) \<subseteq> (\<lambda>r. Id_p (res_pid r)) ` set ?S"
  proof
    fix k assume "k \<in> Id_p ` set (signerParties cfg)"
    then obtain i where i: "i < length (signerParties cfg)"
      and k: "k = Id_p (signerParties cfg ! i)"
      by (auto simp add: in_set_conv_nth)
    from present i three have "Signer i \<in> fst ` set (completed env)" by simp
    then have "Id_p (signerParties cfg ! i) \<in> (\<lambda>r. Id_p (res_pid r)) ` set ?S"
      unfolding signerEndCh_keys [OF made ids i] .
    with k show "k \<in> (\<lambda>r. Id_p (res_pid r)) ` set ?S" by simp
  qed
  with signerEndCh_keys_subset [OF made]
  have same: "(\<lambda>r. Id_p (res_pid r)) ` set ?S = Id_p ` set (signerParties cfg)"
    by (rule equalityI)
  with keys show all_keys: "fst ` set results = Id_p ` set (signerParties cfg)"
    by simp
  have "length results = card (fst ` set results)"
    using distinct_card [OF dist] by simp
  also have "\<dots> = card (set (map Id_p (signerParties cfg)))"
    by (simp add: all_keys)
  also have "\<dots> = 3"
    using distinct_card [OF ids] three by simp
  finally show "length results = 3" .
  fix i :: nat
  assume i3: "i < 3"
  with three have i: "i < length (signerParties cfg)" by simp
  let ?k = "Id_p (signerParties cfg ! i)"
  from i have "?k \<in> (\<lambda>r. Id_p (res_pid r)) ` set (rev ?S)"
    by (simp add: same)
  then have "List.find (\<lambda>r. Id_p (res_pid r) = ?k) (rev ?S) \<noteq> None"
    by (auto simp add: find_None_iff)
  then obtain r where found: "List.find (\<lambda>r. Id_p (res_pid r) = ?k) (rev ?S) = Some r"
    by blast
  then have r_in: "r \<in> set ?S" and r_key: "Id_p (res_pid r) = ?k"
    by (auto dest: find_SomeD)
  from r_in obtain j sd where j: "(Signer j, sd) \<in> set (completed env)"
    "j < length (signerParties cfg)" "r = \<lparr>res_pid = signerParties cfg ! j, res_data = sd\<rparr>"
    unfolding signerEndCh_member_conv [OF made] by blast
  from r_key j(3) have "Id_p (signerParties cfg ! j) = Id_p (signerParties cfg ! i)"
    by simp
  with ids i j(2) have "j = i" by (rule distinct_ids_index)
  moreover have "map_of results ?k = Some r"
    by (simp add: res map_of_fold_update found)
  ultimately show "\<exists>sd. (Signer i, sd) \<in> set (completed env) \<and>
      map_of results ?k = Some \<lparr>res_pid = signerParties cfg ! i, res_data = sd\<rparr>"
    using j(1,3) by blast
qed

text \<open>C2, on the parties of main.go: the co-signers complete in the order 1, 3, 2 and the
  importer in between.\<close>

theorem C2_one_result_per_signer_witness:
  "create_parties main_config = Inr main_parties \<and>
   length (signerParties main_config) = 3 \<and>
   distinct (map Id_p (signerParties main_config)) \<and>
   distinct (map fst (completed all_complete)) \<and>
   outcome (runResharing secp256k1_N main_config all_complete) = Success \<and>
   map_option (map fst)
     (collect (end_channels main_parties (completed all_complete) signerEndCh)) =
     Some [''signer1'', ''signer3'', ''signer2'']"
proof -
  have h1: "create_parties main_config = Inr main_parties"
    by (rule main_parties_made)
  have h2: "length (signerParties main_config) = 3"
    by (simp add: main_config_def NewPartyID_def)
  have h3: "distinct (map Id_p (signerParties main_config))"
    by (simp add: main_config_def NewPartyID_def)
  have h4: "distinct (map fst (completed all_complete))"
    by (simp add: all_complete_def silent_def)
  have run: "outcome (runResharing secp256k1_N main_config all_complete) = Success"
    by code_simp
  have got: "map_option (map fst)
     (collect (end_channels main_parties (completed all_complete) signerEndCh)) =
     Some [''signer1'', ''signer3'', ''signer2'']"
    by code_simp
  from C2_one_result_per_signer [OF h1 h2 h3 h4, of secp256k1_N] h1 h2 h3 h4 run got
  show ?thesis by simp
qed

subsection \<open>C3: the recipients of an envelope\<close>

text \<open>C3 as stated fails: the router never looks at the broadcast flag to choose recipients. A
  broadcast envelope of the importer whose routing header lists the first co-signer only
  reaches that co-signer; the second and the third co-signer, both committee members
  with an engine, receive nothing.\<close>

theorem C3_broadcast_reaches_listed_only:
  "WireBytes broadcast_to_one =
     Inr ([1, 2, 3],
       \<lparr>To = [(NewPartyID ''signer1'' ''Signer1'' 1)], IsBroadcast = True\<rparr>) \<and>
   map_option received
     (partyMap (run_router main_parties (silent\<lparr>emitted := [(Importer, broadcast_to_one)]\<rparr>))
        ''signer1'') =
     Some [\<lparr>d_payload = [1, 2, 3], d_from = importerParty main_config, d_isBroadcast = True\<rparr>] \<and>
   map_option received
     (partyMap (run_router main_parties (silent\<lparr>emitted := [(Importer, broadcast_to_one)]\<rparr>))
        ''signer2'') = Some [] \<and>
   map_option received
     (partyMap (run_router main_parties (silent\<lparr>emitted := [(Importer, broadcast_to_one)]\<rparr>))
        ''signer3'') = Some []"
  by code_simp

text \<open>C3, amended. For every envelope that serialises, broadcast or directed, the recipients
  are the entries of the routing header's \<open>To\<close> list other than the sender:
  the engine registered under an id \<open>k\<close> receives the envelope once for
  every such entry with id \<open>k\<close>, and the broadcast flag is only handed on to
  the engine.\<close>

theorem C3_recipients_are_the_To_list:
  "WireBytes (msg_data m) = Inr (payload, routing) \<Longrightarrow>
     partyMap (route_msg U m st) k =
       map_option
         (\<lambda>p. p\<lparr>received := received p @
            replicate
              (count_list (map Id_p (filter (\<lambda>t. Id_p t \<noteq> Id_p (msg_from m)) (To routing))) k)
              (the_delivery m payload routing)\<rparr>)
         (partyMap st k)"
  by (simp add: route_msg_def partyMap_fold_route_to)

text \<open>C3, amended, on the broadcast envelope above.\<close>

theorem C3_recipients_are_the_To_list_witness:
  "WireBytes (msg_data (makeOutCh (importerParty main_config) broadcast_to_one)) =
     Inr ([1, 2, 3],
       \<lparr>To = [(NewPartyID ''signer1'' ''Signer1'' 1)], IsBroadcast = True\<rparr>) \<and>
   map_option received
     (partyMap
        (route_msg accepting (makeOutCh (importerParty main_config) broadcast_to_one)
           \<lparr>partyMap = st_partyMap main_parties, lines = []\<rparr>) ''signer1'') =
     Some [\<lparr>d_payload = [1, 2, 3], d_from = importerParty main_config, d_isBroadcast = True\<rparr>]"
proof -
  let ?m = "makeOutCh (importerParty main_config) broadcast_to_one"
  let ?r = "\<lparr>To = [(NewPartyID ''signer1'' ''Signer1'' 1)], IsBroadcast = True\<rparr>"
  have h: "WireBytes (msg_data ?m) = Inr ([1, 2, 3], ?r)"
    by (simp add: makeOutCh_def broadcast_to_one_def)
  have before: "map_option received (st_partyMap main_parties ''signer1'') = Some []"
    by code_simp
  have count: "count_list
      (map Id_p (filter (\<lambda>t. Id_p t \<noteq> Id_p (msg_from ?m)) (To ?r))) ''signer1'' = 1"
    by (simp add: makeOutCh_def main_config_def NewPartyID_def)
  have d: "the_delivery ?m [1, 2, 3] ?r =
      \<lparr>d_payload = [1, 2, 3], d_from = importerParty main_config, d_isBroadcast = True\<rparr>"
    by (simp add: the_delivery_def makeOutCh_def)
  from before obtain p where p: "st_partyMap main_parties ''signer1'' = Some p" "received p = []"
    by auto
  from C3_recipients_are_the_To_list [OF h, of accepting
      "\<lparr>partyMap = st_partyMap main_parties, lines = []\<rparr>" "''signer1''"]
  have "map_option received
     (partyMap (route_msg accepting ?m \<lparr>partyMap = st_partyMap main_parties, lines = []\<rparr>)
        ''signer1'') =
     Some [\<lparr>d_payload = [1, 2, 3], d_from = importerParty main_config, d_isBroadcast = True\<rparr>]"
    unfolding count d by (simp add: p)
  with h show ?thesis by simp
qed

subsection \<open>C4: nothing is delivered to the sender\<close>

text \<open>C4. A recipient whose id is the sender's id is skipped: the pass of the loop only prints
  the line about ignoring the message. In the router of a run, whose engines are those
  of the set-up, an engine is registered under the id of its own party and never
  receives a message whose sender has that id.\<close>

theorem C4_no_delivery_to_sender:
  "(Id_p to = Id_p (msg_from m) \<longrightarrow>
      route_to U m payload routing to st = say (Ignoring_self (Id_p (msg_from m))) st) \<and>
   (create_parties cfg = Inr s \<longrightarrow> partyMap (run_router s env) k = Some p \<longrightarrow>
      d \<in> set (received p) \<longrightarrow> Id_p (party p) = k \<and> Id_p (d_from d) \<noteq> k)"
proof (intro conjI impI)
  assume "Id_p to = Id_p (msg_from m)"
  then show "route_to U m payload routing to st = say (Ignoring_self (Id_p (msg_from m))) st"
    by (simp add: route_to_def)
next
  assume a: "create_parties cfg = Inr s" "partyMap (run_router s env) k = Some p"
    "d \<in> set (received p)"
  from a(1) have "own_mail_free (run_router s env)" by (rule own_mail_free_run_router)
  with a(2,3) show "Id_p (party p) = k" "Id_p (d_from d) \<noteq> k"
    by (auto simp add: own_mail_free_def)
qed

text \<open>C4, on a message of the first co-signer that names itself and the second co-signer.\<close>

theorem C4_no_delivery_to_sender_witness:
  "Id_p (NewPartyID ''signer1'' ''Signer1'' 1) =
     Id_p (msg_from (makeOutCh (signerParties main_config ! 0) to_self_and_others)) \<and>
   route_to rejecting (makeOutCh (signerParties main_config ! 0) to_self_and_others) [4, 5]
     \<lparr>To = [], IsBroadcast = False\<rparr> (NewPartyID ''signer1'' ''Signer1'' 1)
     \<lparr>partyMap = st_partyMap main_parties, lines = []\<rparr> =
     say (Ignoring_self ''signer1'') \<lparr>partyMap = st_partyMap main_parties, lines = []\<rparr> \<and>
   create_parties main_config = Inr main_parties \<and>
   partyMap (run_router main_parties (silent\<lparr>emitted := [(Signer 0, to_self_and_others)]\<rparr>))
     ''signer2'' =
     Some ((signerPartyInstances main_parties ! 1)
       \<lparr>received := [\<lparr>d_payload = [4, 5], d_from = signerParties main_config ! 0,
                       d_isBroadcast = False\<rparr>]\<rparr>) \<and>
   Id_p (d_from \<lparr>d_payload = [4, 5], d_from = signerParties main_config ! 0,
                 d_isBroadcast = False\<rparr>) \<noteq> ''signer2''"
proof -
  let ?to = "(NewPartyID ''signer1'' ''Signer1'' 1)"
  let ?m = "makeOutCh (signerParties main_config ! 0) to_self_and_others"
  let ?env = "silent\<lparr>emitted := [(Signer 0, to_self_and_others)]\<rparr>"
  let ?d = "\<lparr>d_payload = [4, 5], d_from = signerParties main_config ! 0, d_isBroadcast = False\<rparr>"
  let ?p = "(signerPartyInstances main_parties ! 1)\<lparr>received := [?d]\<rparr>"
  have h1: "Id_p ?to = Id_p (msg_from ?m)"
    by (simp add: makeOutCh_def main_config_def NewPartyID_def)
  have h2: "create_parties main_config = Inr main_parties"
    by (rule main_parties_made)
  have h3: "partyMap (run_router main_parties ?env) ''signer2'' = Some ?p"
    by code_simp
  have h4: "?d \<in> set (received ?p)"
    by simp
  note inst = C4_no_delivery_to_sender [where to = ?to and m = ?m and U = rejecting
      and payload = "[4, 5]" and routing = "\<lparr>To = [], IsBroadcast = False\<rparr>"
      and st = "\<lparr>partyMap = st_partyMap main_parties, lines = []\<rparr>"
      and cfg = main_config and s = main_parties and env = ?env and k = "''signer2''"
      and p = ?p and d = ?d]
  from inst h1 have c1: "route_to rejecting ?m [4, 5] \<lparr>To = [], IsBroadcast = False\<rparr> ?to
      \<lparr>partyMap = st_partyMap main_parties, lines = []\<rparr> =
      say (Ignoring_self (Id_p (msg_from ?m))) \<lparr>partyMap = st_partyMap main_parties, lines = []\<rparr>"
    by blast
  from inst h2 h3 h4 have c2: "Id_p (d_from ?d) \<noteq> ''signer2''"
    by blast
  have name: "Id_p (msg_from ?m) = ''signer1''"
    by (simp add: makeOutCh_def main_config_def NewPartyID_def)
  from h1 h2 h3 c1 c2 show ?thesis
    unfolding name by blast
qed

subsection \<open>C5: delivery errors do not stop the router\<close>



subsection \<open>C6: a second completion of the same party\<close>

text \<open>C6 as stated fails: the collection has no check for a key that is already present. When
  the first co-signer reports twice and the third never, the loop takes three receipts,
  the second report replaces the first in the map, two entries remain, and the run ends
  with the success line.\<close>

theorem C6_second_report_absorbed:
  "map (Id_p \<circ> res_pid) (end_channels main_parties (completed reports_twice) signerEndCh) =
     [''signer1'', ''signer1'', ''signer2''] \<and>
   collect (end_channels main_parties (completed reports_twice) signerEndCh) =
     Some [(''signer1'', \<lparr>res_pid = signerParties main_config ! 0, res_data = share 2\<rparr>),
           (''signer2'', \<lparr>res_pid = signerParties main_config ! 1, res_data = share 3\<rparr>)] \<and>
   runResharing secp256k1_N main_config reports_twice =
     \<lparr>outcome = Success, totalXi = Some 5\<rparr>"
  by code_simp

text \<open>C6, amended. The collection reports no error: it waits for ever on fewer than three
  receipts and otherwise returns the map in which every id has the last of the first
  three receipts with that id. A receipt for an id that is already in the map counts as
  one of the three, leaves the number of entries as it is and replaces the stored
  result.\<close>

theorem C6_duplicate_overwrites:
  "(collect ch = None \<longleftrightarrow> length ch < 3) \<and>
   (3 \<le> length ch \<longrightarrow>
      (\<exists>results. collect ch = Some results \<and>
         (\<forall>k. map_of results k = List.find (\<lambda>r. Id_p (res_pid r) = k) (rev (take 3 ch))))) \<and>
   (i < 3 \<longrightarrow> Id_p (res_pid r) \<in> fst ` set results \<longrightarrow>
      collect_loop i (r # rest) results =
        collect_loop (i + 1) rest (AList.update (Id_p (res_pid r)) r results) \<and>
      length (AList.update (Id_p (res_pid r)) r results) = length results \<and>
      map_of (AList.update (Id_p (res_pid r)) r results) (Id_p (res_pid r)) = Some r)"
proof (intro conjI impI)
  show "collect ch = None \<longleftrightarrow> length ch < 3"
    by (simp add: collect_eq)
  show "\<exists>results. collect ch = Some results \<and>
         (\<forall>k. map_of results k = List.find (\<lambda>r. Id_p (res_pid r) = k) (rev (take 3 ch)))"
    if "3 \<le> length ch"
    using that by (simp add: collect_eq map_of_fold_update split: option.split)
  assume i: "i < 3" and dup: "Id_p (res_pid r) \<in> fst ` set results"
  from i show "collect_loop i (r # rest) results =
        collect_loop (i + 1) rest (AList.update (Id_p (res_pid r)) r results)"
    by (simp add: collect_loop.simps [of i "r # rest"])
  from dup show "length (AList.update (Id_p (res_pid r)) r results) = length results"
    by (rule length_update_present)
  show "map_of (AList.update (Id_p (res_pid r)) r results) (Id_p (res_pid r)) = Some r"
    by (simp add: AList.update_conv')
qed

text \<open>C6, amended, on the run in which the first co-signer reports twice.\<close>

theorem C6_duplicate_overwrites_witness:
  "3 \<le> length (end_channels main_parties (completed reports_twice) signerEndCh) \<and>
   (1::nat) < 3 \<and>
   Id_p (res_pid \<lparr>res_pid = signerParties main_config ! 0, res_data = share 2\<rparr>)
     \<in> fst ` set [(''signer1'', \<lparr>res_pid = signerParties main_config ! 0, res_data = share 1\<rparr>)] \<and>
   collect (end_channels main_parties (completed reports_twice) signerEndCh) \<noteq> None \<and>
   length (AList.update ''signer1''
       \<lparr>res_pid = signerParties main_config ! 0, res_data = share 2\<rparr>
       [(''signer1'', \<lparr>res_pid = signerParties main_config ! 0, res_data = share 1\<rparr>)]) = 1 \<and>
   map_of (AList.update ''signer1''
       \<lparr>res_pid = signerParties main_config ! 0, res_data = share 2\<rparr>
       [(''signer1'', \<lparr>res_pid = signerParties main_config ! 0, res_data = share 1\<rparr>)])
     ''signer1'' = Some \<lparr>res_pid = signerParties main_config ! 0, res_data = share 2\<rparr>"
proof -
  let ?ch = "end_channels main_parties (completed reports_twice) signerEndCh"
  let ?r1 = "\<lparr>res_pid = signerParties main_config ! 0, res_data = share 1\<rparr>"
  let ?r2 = "\<lparr>res_pid = signerParties main_config ! 0, res_data = share 2\<rparr>"
  have h1: "3 \<le> length ?ch" by code_simp
  have h2: "(1::nat) < 3" by simp
  have name: "Id_p (res_pid ?r2) = ''signer1''" by code_simp
  have h3: "Id_p (res_pid ?r2) \<in> fst ` set [(''signer1'', ?r1)]"
    unfolding name by simp
  note inst = C6_duplicate_overwrites [where ch = ?ch and i = 1 and r = ?r2
      and results = "[(''signer1'', ?r1)]"]
  from inst h1 have c1: "collect ?ch \<noteq> None"
    by auto
  from inst h2 h3 have c2: "length (AList.update (Id_p (res_pid ?r2)) ?r2 [(''signer1'', ?r1)]) =
      length [(''signer1'', ?r1)]"
    and c3: "map_of (AList.update (Id_p (res_pid ?r2)) ?r2 [(''signer1'', ?r1)])
      (Id_p (res_pid ?r2)) = Some ?r2"
    by blast+
  from h1 h2 h3 c1 c2 c3 show ?thesis
    unfolding name by simp
qed

subsection \<open>C7: an engine that does not start\<close>

text \<open>C7. When the \<^verbatim>\<open>Start()\<close> of a co-signer or of the importer
  returns an error, the run does not reach the sum and the comparison and does not end
  with the success line; after a successful set-up it ends with the panic of a co-signer
  or the fatal exit of the importer, carrying the error that
  \<^verbatim>\<open>Start()\<close> returned.\<close>

theorem C7_start_failure_aborts_before_check:
  assumes "(\<exists>i<length (signerParties cfg). signer_Start env i \<noteq> None) \<or>
           importer_Start env \<noteq> None"
  shows "totalXi (runResharing N cfg env) = None \<and>
         outcome (runResharing N cfg env) \<noteq> Success \<and>
         (create_parties cfg = Inr st \<longrightarrow>
            (\<exists>e. (outcome (runResharing N cfg env) = Panicked (Start_error e) \<and>
                    (\<exists>i<length (signerParties cfg). signer_Start env i = Some e)) \<or>
                  (outcome (runResharing N cfg env) = Fatal (Importer_failed e) \<and>
                    importer_Start env = Some e)))"
proof (cases "create_parties cfg")
  case (Inl p)
  then show ?thesis by (simp add: runResharing_def)
next
  case (Inr st')
  from assms have "launch env (length (signerParties cfg)) \<noteq> None"
    by (auto simp add: launch_None)
  then obtain a where a: "launch env (length (signerParties cfg)) = Some a"
    by blast
  with Inr have run: "runResharing N cfg env = \<lparr>outcome = a, totalXi = None\<rparr>"
    by (simp add: runResharing_def)
  from launch_Some [OF a] run show ?thesis
    by auto
qed

text \<open>C7, on the run in which the engine of the party with index 2 fails to start although all
  results are there.\<close>

theorem C7_start_failure_aborts_before_check_witness:
  "(1::nat) < length (signerParties main_config) \<and>
   signer_Start second_fails 1 \<noteq> None \<and>
   create_parties main_config = Inr main_parties \<and>
   totalXi (runResharing secp256k1_N main_config second_fails) = None \<and>
   runResharing secp256k1_N main_config second_fails =
     \<lparr>outcome = Panicked (Start_error ''start failed''), totalXi = None\<rparr>"
proof -
  have h1: "(1::nat) < length (signerParties main_config)"
    by (simp add: main_config_def NewPartyID_def)
  have h2: "signer_Start second_fails 1 \<noteq> None"
    by (simp add: second_fails_def)
  from h1 h2 have h: "(\<exists>i<length (signerParties main_config). signer_Start second_fails i \<noteq> None) \<or>
      importer_Start second_fails \<noteq> None"
    by blast
  have run: "runResharing secp256k1_N main_config second_fails =
     \<lparr>outcome = Panicked (Start_error ''start failed''), totalXi = None\<rparr>"
    by code_simp
  have made: "create_parties main_config = Inr main_parties"
    by (rule main_parties_made)
  from C7_start_failure_aborts_before_check [OF h, of secp256k1_N main_parties]
  have none: "totalXi (runResharing secp256k1_N main_config second_fails) = None"
    by blast
  from h1 h2 made none run show ?thesis by simp
qed

subsection \<open>C8: negative indices\<close>


subsection \<open>C9: an envelope that does not serialise\<close>

text \<open>C9. When \<^verbatim>\<open>WireBytes()\<close> fails, the router writes one log line
  and changes no engine; it goes on with the envelopes that follow, and the engines end
  in the state they would have without that envelope in the stream.\<close>

theorem C9_unserializable_envelope_skipped:
  "WireBytes (msg_data m) = Inl err \<Longrightarrow>
     route_msg U m st = say (Error_serializing (Id_p (msg_from m)) err) st \<and>
     router U (m # ms) st = router U ms (say (Error_serializing (Id_p (msg_from m)) err) st) \<and>
     partyMap (router U (ms1 @ m # ms2) st) = partyMap (router U (ms1 @ ms2) st)"
proof -
  assume w: "WireBytes (msg_data m) = Inl err"
  then have one: "route_msg U m st' = say (Error_serializing (Id_p (msg_from m)) err) st'"
    for st'
    by (simp add: route_msg_def)
  have "partyMap (router U ms2 (route_msg U m (router U ms1 st))) =
        partyMap (router U ms2 (router U ms1 st))"
    by (rule partyMap_router_cong) (simp add: one)
  then show ?thesis
    by (simp add: one router_append router_Cons)
qed

text \<open>C9, on a message of the first co-signer that does not serialise, followed by a
  broadcast.\<close>

theorem C9_unserializable_envelope_skipped_witness:
  "WireBytes (msg_data (makeOutCh (signerParties main_config ! 0) broken)) =
     Inl ''marshal failed'' \<and>
   lines (route_msg accepting (makeOutCh (signerParties main_config ! 0) broken)
      \<lparr>partyMap = st_partyMap main_parties, lines = []\<rparr>) =
     [Error_serializing ''signer1'' ''marshal failed''] \<and>
   map_option received
     (partyMap (run_router main_parties
        (silent\<lparr>emitted := [(Signer 0, broken), (Importer, broadcast_to_one)]\<rparr>)) ''signer1'') =
   map_option received
     (partyMap (run_router main_parties
        (silent\<lparr>emitted := [(Importer, broadcast_to_one)]\<rparr>)) ''signer1'')"
proof -
  let ?m = "makeOutCh (signerParties main_config ! 0) broken"
  let ?m2 = "makeOutCh (importerParty main_config) broadcast_to_one"
  let ?st = "\<lparr>partyMap = st_partyMap main_parties, lines = []\<rparr>"
  have h: "WireBytes (msg_data ?m) = Inl ''marshal failed''"
    by (simp add: makeOutCh_def broken_def)
  have name: "Id_p (msg_from ?m) = ''signer1''"
    by (simp add: makeOutCh_def main_config_def NewPartyID_def)
  note inst = C9_unserializable_envelope_skipped [OF h, where U = accepting and st = ?st
      and ?ms1.0 = "[]" and ?ms2.0 = "[?m2]"]
  from inst have c1: "lines (route_msg accepting ?m ?st) =
      [Error_serializing ''signer1'' ''marshal failed'']"
    by (simp add: name)
  have o1: "outCh main_parties [(Signer 0, broken), (Importer, broadcast_to_one)] = [?m, ?m2]"
    by code_simp
  have o2: "outCh main_parties [(Importer, broadcast_to_one)] = [?m2]"
    by code_simp
  from inst have "partyMap (router accepting ([] @ ?m # [?m2]) ?st) =
      partyMap (router accepting ([] @ [?m2]) ?st)"
    by blast
  then have c2: "partyMap (run_router main_parties
        (silent\<lparr>emitted := [(Signer 0, broken), (Importer, broadcast_to_one)]\<rparr>)) =
      partyMap (run_router main_parties (silent\<lparr>emitted := [(Importer, broadcast_to_one)]\<rparr>))"
    by (simp add: run_router_def silent_def o1 o2)
  from h c1 c2 show ?thesis by simp
qed

subsection \<open>C10: the importer's result\<close>

text \<open>C10. The save data of the importer's engine goes to the discard channel and nowhere
  else. What the collection reads is the same with and without the importer's
  completions, every result it reads carries a co-signer, the result of the run does not
  depend on the importer's completions, and when no co-signer has the importer's id that
  id is not a key of the results.\<close>

theorem C10_importer_result_discarded:
  assumes made: "create_parties cfg = Inr st"
  shows "end_channels st evs discardEndCh =
           map (\<lambda>ev. \<lparr>res_pid = importerParty cfg, res_data = snd ev\<rparr>)
             (filter (\<lambda>ev. fst ev = Importer) evs) \<and>
         end_channels st (filter (\<lambda>ev. fst ev \<noteq> Importer) evs) signerEndCh =
           end_channels st evs signerEndCh \<and>
         (\<forall>r \<in> set (end_channels st evs signerEndCh). res_pid r \<in> set (signerParties cfg)) \<and>
         runResharing N cfg (env\<lparr>completed := filter (\<lambda>ev. fst ev \<noteq> Importer) evs\<rparr>) =
           runResharing N cfg (env\<lparr>completed := evs\<rparr>) \<and>
         (Id_p (importerParty cfg) \<notin> Id_p ` set (signerParties cfg) \<longrightarrow>
            (\<forall>results. collect (end_channels st evs signerEndCh) = Some results \<longrightarrow>
               Id_p (importerParty cfg) \<notin> fst ` set results))"
proof (intro conjI ballI impI allI)
  show "end_channels st evs discardEndCh =
           map (\<lambda>ev. \<lparr>res_pid = importerParty cfg, res_data = snd ev\<rparr>)
             (filter (\<lambda>ev. fst ev = Importer) evs)"
    by (rule discardEndCh_eq [OF made])
  show same: "end_channels st (filter (\<lambda>ev. fst ev \<noteq> Importer) evs) signerEndCh =
           end_channels st evs signerEndCh"
    by (rule signerEndCh_without_importer [OF made])
  show "runResharing N cfg (env\<lparr>completed := filter (\<lambda>ev. fst ev \<noteq> Importer) evs\<rparr>) =
           runResharing N cfg (env\<lparr>completed := evs\<rparr>)"
    by (rule runResharing_completed_cong [OF made]) (simp_all add: same)
  show "res_pid r \<in> set (signerParties cfg)" if "r \<in> set (end_channels st evs signerEndCh)" for r
    using that unfolding signerEndCh_member_conv [OF made] by auto
  fix results
  assume other: "Id_p (importerParty cfg) \<notin> Id_p ` set (signerParties cfg)"
    and got: "collect (end_channels st evs signerEndCh) = Some results"
  from got have "results = fold (\<lambda>r. AList.update (Id_p (res_pid r)) r)
      (take 3 (end_channels st evs signerEndCh)) []"
    by (simp add: collect_eq split: if_splits)
  then have "fst ` set results =
      (\<lambda>r. Id_p (res_pid r)) ` set (take 3 (end_channels st evs signerEndCh))"
    by (simp add: keys_fold_update)
  also have "\<dots> \<subseteq> (\<lambda>r. Id_p (res_pid r)) ` set (end_channels st evs signerEndCh)"
    by (rule image_mono) (rule set_take_subset)
  finally have "fst ` set results \<subseteq>
      (\<lambda>r. Id_p (res_pid r)) ` set (end_channels st evs signerEndCh)" .
  then have "fst ` set results \<subseteq> Id_p ` set (signerParties cfg)"
    using signerEndCh_keys_subset [OF made] by (rule subset_trans)
  with other show "Id_p (importerParty cfg) \<notin> fst ` set results"
    by blast
qed

text \<open>C10, on the run in which all four engines complete.\<close>

theorem C10_importer_result_discarded_witness:
  "create_parties main_config = Inr main_parties \<and>
   Id_p (importerParty main_config) \<notin> Id_p ` set (signerParties main_config) \<and>
   end_channels main_parties (completed all_complete) discardEndCh =
     [\<lparr>res_pid = importerParty main_config, res_data = share 0\<rparr>] \<and>
   map_option (map fst)
     (collect (end_channels main_parties (completed all_complete) signerEndCh)) =
     Some [''signer1'', ''signer3'', ''signer2''] \<and>
   runResharing secp256k1_N main_config
     (all_complete\<lparr>completed := filter (\<lambda>ev. fst ev \<noteq> Importer) (completed all_complete)\<rparr>) =
   runResharing secp256k1_N main_config all_complete"
proof -
  have h1: "create_parties main_config = Inr main_parties"
    by (rule main_parties_made)
  have h2: "Id_p (importerParty main_config) \<notin> Id_p ` set (signerParties main_config)"
    by (simp add: main_config_def NewPartyID_def)
  note inst = C10_importer_result_discarded [OF h1, where evs = "completed all_complete"
      and N = secp256k1_N and env = all_complete]
  have fl: "map (\<lambda>ev. \<lparr>res_pid = importerParty main_config, res_data = snd ev\<rparr>)
      (filter (\<lambda>ev. fst ev = Importer) (completed all_complete)) =
      [\<lparr>res_pid = importerParty main_config, res_data = share 0\<rparr>]"
    by (simp add: all_complete_def silent_def)
  from inst have c1: "end_channels main_parties (completed all_complete) discardEndCh =
     [\<lparr>res_pid = importerParty main_config, res_data = share 0\<rparr>]"
    unfolding fl by blast
  have c2: "map_option (map fst)
     (collect (end_channels main_parties (completed all_complete) signerEndCh)) =
     Some [''signer1'', ''signer3'', ''signer2'']"
    by code_simp
  have same: "all_complete\<lparr>completed := completed all_complete\<rparr> = all_complete"
    by simp
  from inst have c3: "runResharing secp256k1_N main_config
     (all_complete\<lparr>completed := filter (\<lambda>ev. fst ev \<noteq> Importer) (completed all_complete)\<rparr>) =
     runResharing secp256k1_N main_config all_complete"
    unfolding same by blast
  from h1 h2 c1 c2 c3 show ?thesis by simp
qed

end
